theory Spec2Isabelle
  imports Complex_Main
begin

section \<open>JavaScript numbers\<close>

text \<open>
  The program computes with JavaScript numbers. They are modelled as exact rationals
  extended by the three non-finite values; the rounding of binary64 and the sign of
  zero are not modelled (every zero is the positive zero). The tap estimator only
  divides integers of moderate size, so its rounding to the nearest integer is not
  affected: a quotient \<open>240000 / s\<close> with an integer \<open>s\<close> that is not a half-integer
  is at least \<open>1 / (2 * s)\<close> away from one.
\<close>

datatype jsnum = Num rat | PosInf | NegInf | NaN

fun js_neg :: "jsnum \<Rightarrow> jsnum" where
  "js_neg (Num a) = Num (- a)"
| "js_neg PosInf = NegInf"
| "js_neg NegInf = PosInf"
| "js_neg NaN = NaN"

fun js_add :: "jsnum \<Rightarrow> jsnum \<Rightarrow> jsnum" where
  "js_add (Num a) (Num b) = Num (a + b)"
| "js_add NaN _ = NaN"
| "js_add _ NaN = NaN"
| "js_add PosInf NegInf = NaN"
| "js_add NegInf PosInf = NaN"
| "js_add PosInf _ = PosInf"
| "js_add _ PosInf = PosInf"
| "js_add NegInf _ = NegInf"
| "js_add _ NegInf = NegInf"

definition js_sub :: "jsnum \<Rightarrow> jsnum \<Rightarrow> jsnum" where
  "js_sub a b = js_add a (js_neg b)"

fun js_mul :: "jsnum \<Rightarrow> jsnum \<Rightarrow> jsnum" where
  "js_mul (Num a) (Num b) = Num (a * b)"
| "js_mul NaN _ = NaN"
| "js_mul _ NaN = NaN"
| "js_mul (Num a) PosInf = (if a = 0 then NaN else if 0 < a then PosInf else NegInf)"
| "js_mul (Num a) NegInf = (if a = 0 then NaN else if 0 < a then NegInf else PosInf)"
| "js_mul PosInf (Num b) = (if b = 0 then NaN else if 0 < b then PosInf else NegInf)"
| "js_mul NegInf (Num b) = (if b = 0 then NaN else if 0 < b then NegInf else PosInf)"
| "js_mul PosInf PosInf = PosInf"
| "js_mul PosInf NegInf = NegInf"
| "js_mul NegInf PosInf = NegInf"
| "js_mul NegInf NegInf = PosInf"

fun js_div :: "jsnum \<Rightarrow> jsnum \<Rightarrow> jsnum" where
  "js_div (Num a) (Num b) =
     (if b = 0 then (if a = 0 then NaN else if 0 < a then PosInf else NegInf)
      else Num (a / b))"
| "js_div NaN _ = NaN"
| "js_div _ NaN = NaN"
| "js_div (Num a) PosInf = Num 0"
| "js_div (Num a) NegInf = Num 0"
| "js_div PosInf (Num b) = (if 0 \<le> b then PosInf else NegInf)"
| "js_div NegInf (Num b) = (if 0 \<le> b then NegInf else PosInf)"
| "js_div PosInf PosInf = NaN"
| "js_div PosInf NegInf = NaN"
| "js_div NegInf PosInf = NaN"
| "js_div NegInf NegInf = NaN"

text \<open>The comparison \<open>a < b\<close>: false whenever an operand is NaN.\<close>

fun js_lt :: "jsnum \<Rightarrow> jsnum \<Rightarrow> bool" where
  "js_lt (Num a) (Num b) = (a < b)"
| "js_lt NaN _ = False"
| "js_lt _ NaN = False"
| "js_lt _ NegInf = False"
| "js_lt PosInf _ = False"
| "js_lt NegInf _ = True"
| "js_lt _ PosInf = True"

definition js_gt :: "jsnum \<Rightarrow> jsnum \<Rightarrow> bool" where
  "js_gt a b = js_lt b a"

definition isNaN :: "jsnum \<Rightarrow> bool" where
  "isNaN x = (x = NaN)"

fun Math_max :: "jsnum \<Rightarrow> jsnum \<Rightarrow> jsnum" where
  "Math_max NaN _ = NaN"
| "Math_max _ NaN = NaN"
| "Math_max a b = (if js_lt a b then b else a)"

fun Math_min :: "jsnum \<Rightarrow> jsnum \<Rightarrow> jsnum" where
  "Math_min NaN _ = NaN"
| "Math_min _ NaN = NaN"
| "Math_min a b = (if js_lt b a then b else a)"

text \<open>\<open>Math.round\<close> rounds to the nearest integer, a tie towards plus infinity: \<open>\<lfloor>x + 1/2\<rfloor>\<close>.\<close>

fun Math_round :: "jsnum \<Rightarrow> jsnum" where
  "Math_round (Num a) = Num (of_int \<lfloor>a + 1 / 2\<rfloor>)"
| "Math_round x = x"

section \<open>The state of the component\<close>

text \<open>
  \<open>bpm\<close> holds a number or, while the numeric entry is being edited, the empty
  string, which arithmetic reads as zero.
\<close>

datatype bpmval = BNum jsnum | BEmpty

fun toNumber :: "bpmval \<Rightarrow> jsnum" where
  "toNumber (BNum x) = x"
| "toNumber BEmpty = Num 0"

text \<open>
  The step cursor is a non-negative integer, or NaN once a remainder by a zero cycle
  length has been taken. The highlighted step is a step number or \<open>-1\<close> (none).
\<close>

datatype stepnum = Step nat | StepNaN

datatype highlight = NoStep | AtStep stepnum

datatype voice = Hat | Snare | Kick

text \<open>
  The callback a visual timeout carries: the files \<open>app.js\<close> and \<open>part_001\<close> set the
  highlighted step only if playback is still on (\<open>SetStepIfPlaying\<close>); \<open>part_002\<close>
  sets it unconditionally (\<open>SetStep\<close>).
\<close>

datatype callback = SetStepIfPlaying stepnum | SetStep stepnum

text \<open>
  The React state and the refs of \<open>MetronomeUI\<close>. A ref that mirrors a state variable
  (\<open>bpmRef\<close>, \<open>gridRef\<close>, \<open>beatsRef\<close>, \<open>subRef\<close>, \<open>isPlayingRef\<close>) is the same field as
  the variable. Three fields record effects: \<open>played\<close> the calls of \<open>playSound\<close>,
  \<open>timeouts\<close> the visual timeouts registered by \<open>scheduleNote\<close> (delay in
  milliseconds, callback), and \<open>onsets\<close> the calls of \<open>scheduleNote\<close> itself.
  \<open>timerArmed\<close> says that \<open>timerIDRef\<close> holds a pending poll. The cycle length and
  the subdivision are non-negative integers (the spinners keep them in 1..16 and 1..8),
  and the timestamps of the taps are integers, as \<open>Date.now()\<close> returns them.
\<close>

record metronome =
  bpm :: bpmval
  beatsPerCycle :: nat
  subdivision :: nat
  grid :: "string \<rightharpoonup> bool"
  isPlaying :: bool
  currentStep :: highlight
  tapTimes :: "int list"
  lastMousePos :: "rat \<times> rat"
  nextNoteTime :: jsnum
  stepRef :: stepnum
  timerArmed :: bool
  played :: "(voice \<times> jsnum) list"
  timeouts :: "(jsnum \<times> callback) list"
  onsets :: "(stepnum \<times> jsnum) list"

definition MIN_BPM :: rat where
  "MIN_BPM = 30"

definition MAX_BPM :: rat where
  "MAX_BPM = 250"

section \<open>Tap tempo\<close>

text \<open>The loop of \<open>handleTap\<close> that collects \<open>newTaps[i + 1] - newTaps[i]\<close>.\<close>

fun intervals :: "int list \<Rightarrow> int list" where
  "intervals (a # b # xs) = (b - a) # intervals (b # xs)"
| "intervals _ = []"

text \<open>
  \<open>handleTap\<close> of \<open>app.js\<close> (the one of \<open>part_001\<close> is the same code on fewer
  lines); \<open>now\<close> is the value of \<open>Date.now()\<close>, in milliseconds.
\<close>

definition handleTap :: "int \<Rightarrow> metronome \<Rightarrow> metronome" where
  "handleTap now st =
     (let prev = tapTimes st in
      if length prev > 0 \<and> now - last prev > 3000 then st\<lparr>tapTimes := [now]\<rparr>
      else
        let appended = prev @ [now];
            newTaps = (if length appended > 5 then tl appended else appended)
        in if length newTaps \<ge> 5 then
             let ivs = intervals newTaps;
                 avgInterval = js_div (Num (of_int (foldl (+) 0 ivs))) (Num (of_nat (length ivs)));
                 newBpm = Math_round (js_div (Num 60000) avgInterval);
                 safeBpm = Math_min (Math_max newBpm (Num MIN_BPM)) (Num MAX_BPM)
             in st\<lparr>tapTimes := newTaps, bpm := BNum safeBpm\<rparr>
           else st\<lparr>tapTimes := newTaps\<rparr>)"

section \<open>The pattern grid\<close>

text \<open>
  The grid is an object keyed by the template string \<open>`${row}-${col}`\<close>; a missing key
  reads as \<open>undefined\<close>, which is falsy. Only the truth value of an entry is used.
\<close>

definition digit_char :: "nat \<Rightarrow> char" where
  "digit_char d = ''0123456789'' ! d"

text \<open>
  The decimal digits of a non-negative integer, as the template string prints an
  integer below \<open>10^21\<close> (a step index is below the cycle length, at most 16).
\<close>

fun decimal :: "nat \<Rightarrow> string" where
  "decimal n = (if n < 10 then [digit_char n] else decimal (n div 10) @ [digit_char (n mod 10)])"

declare decimal.simps [simp del]

fun step_string :: "stepnum \<Rightarrow> string" where
  "step_string (Step n) = decimal n"
| "step_string StepNaN = ''NaN''"

definition grid_key :: "string \<Rightarrow> stepnum \<Rightarrow> string" where
  "grid_key row col = row @ ''-'' @ step_string col"

definition truthy :: "bool option \<Rightarrow> bool" where
  "truthy v = (v = Some True)"

text \<open>\<open>toggleGridParams\<close>, the same in the three files; \<open>col\<close> is an index of the row.\<close>

definition toggleGridParams :: "string \<Rightarrow> nat \<Rightarrow> metronome \<Rightarrow> metronome" where
  "toggleGridParams row col st =
     (let key = grid_key row (Step col)
      in st\<lparr>grid := (grid st)(key \<mapsto> \<not> truthy (grid st key))\<rparr>)"

section \<open>Sound renderer and scheduler\<close>

text \<open>
  \<open>playSound\<close> programs the audio graph of one voice at \<open>time\<close>; the model records
  the call.
\<close>

definition playSound :: "voice \<Rightarrow> jsnum \<Rightarrow> metronome \<Rightarrow> metronome" where
  "playSound type time st = st\<lparr>played := played st @ [(type, time)]\<rparr>"

text \<open>
  \<open>scheduleNote\<close> of \<open>app.js\<close> and \<open>part_001\<close>. \<open>currentTime\<close> is
  \<open>audioCtxRef.current.currentTime\<close>, which does not change during one task.
\<close>

definition scheduleNote :: "stepnum \<Rightarrow> jsnum \<Rightarrow> jsnum \<Rightarrow> metronome \<Rightarrow> metronome" where
  "scheduleNote stepNumber time currentTime st =
     (let currentGrid = grid st;
          st1 = (if truthy (currentGrid (grid_key ''high'' stepNumber)) then playSound Hat time st else st);
          st2 = (if truthy (currentGrid (grid_key ''mid'' stepNumber)) then playSound Snare time st1 else st1);
          st3 = (if truthy (currentGrid (grid_key ''low'' stepNumber)) then playSound Kick time st2 else st2);
          visualDelay = js_mul (js_sub time currentTime) (Num 1000)
      in st3\<lparr>timeouts := timeouts st3 @ [(Math_max (Num 0) visualDelay, SetStepIfPlaying stepNumber)],
             onsets := onsets st3 @ [(stepNumber, time)]\<rparr>)"

text \<open>\<open>scheduleNote\<close> of \<open>part_002\<close>: the callback does not look at the playback flag.\<close>

definition scheduleNote_p2 :: "stepnum \<Rightarrow> jsnum \<Rightarrow> jsnum \<Rightarrow> metronome \<Rightarrow> metronome" where
  "scheduleNote_p2 stepNumber time currentTime st =
     (let st1 = (if truthy (grid st (grid_key ''high'' stepNumber)) then playSound Hat time st else st);
          st2 = (if truthy (grid st1 (grid_key ''mid'' stepNumber)) then playSound Snare time st1 else st1);
          st3 = (if truthy (grid st2 (grid_key ''low'' stepNumber)) then playSound Kick time st2 else st2);
          visualDelay = js_mul (js_sub time currentTime) (Num 1000)
      in st3\<lparr>timeouts := timeouts st3 @ [(Math_max (Num 0) visualDelay, SetStep stepNumber)],
             onsets := onsets st3 @ [(stepNumber, time)]\<rparr>)"

text \<open>What a visual timeout does when it fires.\<close>

fun run_callback :: "callback \<Rightarrow> metronome \<Rightarrow> metronome" where
  "run_callback (SetStepIfPlaying stepNumber) st =
     (if isPlaying st then st\<lparr>currentStep := AtStep stepNumber\<rparr> else st)"
| "run_callback (SetStep stepNumber) st = st\<lparr>currentStep := AtStep stepNumber\<rparr>"

text \<open>\<open>(stepRef.current + 1) % beats\<close>: a remainder by zero is NaN, and NaN stays NaN.\<close>

fun step_next :: "stepnum \<Rightarrow> nat \<Rightarrow> stepnum" where
  "step_next (Step s) beats = (if beats = 0 then StepNaN else Step ((s + 1) mod beats))"
| "step_next StepNaN beats = StepNaN"

definition scheduleAheadTime :: jsnum where
  "scheduleAheadTime = Num (1 / 10)"

text \<open>
  The body of the \<open>while\<close> loop of \<open>scheduler\<close>, the same in the three files but for
  the \<open>scheduleNote\<close> it calls (\<open>note\<close>) and the name of the step length.
\<close>

definition schedule_step ::
  "(stepnum \<Rightarrow> jsnum \<Rightarrow> jsnum \<Rightarrow> metronome \<Rightarrow> metronome) \<Rightarrow> jsnum \<Rightarrow> jsnum \<Rightarrow> metronome \<Rightarrow> metronome" where
  "schedule_step note currentTime secondsPerStep st =
     (let st1 = note (stepRef st) (nextNoteTime st) currentTime st;
          st2 = st1\<lparr>nextNoteTime := js_add (nextNoteTime st1) secondsPerStep\<rparr>
      in st2\<lparr>stepRef := step_next (stepRef st2) (beatsPerCycle st2)\<rparr>)"

text \<open>
  The loop itself. The clock is read once: it does not advance during the task that
  runs the poll. The loop does not return (\<open>None\<close>) when the cursor is below the
  horizon and the step length is not positive.
\<close>

partial_function (option) schedule_loop ::
  "(stepnum \<Rightarrow> jsnum \<Rightarrow> jsnum \<Rightarrow> metronome \<Rightarrow> metronome) \<Rightarrow> jsnum \<Rightarrow> jsnum \<Rightarrow> metronome \<Rightarrow> metronome option" where
  "schedule_loop note currentTime secondsPerStep st =
     (if js_lt (nextNoteTime st) (js_add currentTime scheduleAheadTime)
      then schedule_loop note currentTime secondsPerStep (schedule_step note currentTime secondsPerStep st)
      else Some st)"

declare schedule_loop.simps [code]

text \<open>\<open>scheduler\<close> of \<open>app.js\<close>.\<close>

definition scheduler :: "jsnum \<Rightarrow> metronome \<Rightarrow> metronome option" where
  "scheduler currentTime st =
     (let secondsPerBeat = js_div (Num 60) (toNumber (bpm st))
      in if isPlaying st then
           (case schedule_loop scheduleNote currentTime secondsPerBeat st of
              None \<Rightarrow> None
            | Some st' \<Rightarrow> Some (st'\<lparr>timerArmed := True\<rparr>))
         else Some st)"


text \<open>
  \<open>scheduler\<close> of \<open>part_002\<close>: no test of the playback flag. (There \<open>bpm\<close>, \<open>grid\<close> and
  \<open>beatsPerCycle\<close> are the values the closure captured.)
\<close>

definition scheduler_p2 :: "jsnum \<Rightarrow> metronome \<Rightarrow> metronome option" where
  "scheduler_p2 currentTime st =
     (let secondsPerBeat = js_div (Num 60) (toNumber (bpm st))
      in case schedule_loop scheduleNote_p2 currentTime secondsPerBeat st of
           None \<Rightarrow> None
         | Some st' \<Rightarrow> Some (st'\<lparr>timerArmed := True\<rparr>))"

text \<open>
  The effect that runs when \<open>isPlaying\<close> has changed, for the \<open>scheduler\<close> of each
  file: on the way to playing it resets the cursor and polls once; on the way to
  stopped it cancels the pending poll and clears the highlight.
\<close>

definition playEffect ::
  "(jsnum \<Rightarrow> metronome \<Rightarrow> metronome option) \<Rightarrow> jsnum \<Rightarrow> metronome \<Rightarrow> metronome option" where
  "playEffect sched currentTime st =
     (if isPlaying st then
        sched currentTime
          (st\<lparr>stepRef := Step 0, currentStep := AtStep (Step 0), nextNoteTime := currentTime\<rparr>)
      else Some (st\<lparr>timerArmed := False, currentStep := NoStep\<rparr>))"


section \<open>Setting the tempo by hand\<close>

text \<open>
  \<open>parseInt\<close> with no radix: leading white space, a sign, then hexadecimal digits after
  \<open>0x\<close> or \<open>0X\<close> and decimal digits otherwise; NaN when there is no digit. (Only the
  white space of ASCII is modelled, and the integer is exact.)
\<close>

definition is_white :: "char \<Rightarrow> bool" where
  "is_white c = (c \<in> set [CHR 0x09, CHR 0x0A, CHR 0x0B, CHR 0x0C, CHR 0x0D, CHR 0x20])"

definition digit_val :: "char \<Rightarrow> nat" where
  "digit_val c =
     (let n = (of_char c :: nat)
      in if 48 \<le> n \<and> n \<le> 57 then n - 48
         else if 97 \<le> n \<and> n \<le> 122 then n - 87
         else if 65 \<le> n \<and> n \<le> 90 then n - 55
         else 36)"

definition parseInt :: "string \<Rightarrow> jsnum" where
  "parseInt inputString =
     (let s = dropWhile is_white inputString;
          sign = (case s of c # _ \<Rightarrow> if c = CHR ''-'' then (- 1 :: int) else 1 | [] \<Rightarrow> 1);
          s1 = (case s of c # r \<Rightarrow> if c = CHR ''-'' \<or> c = CHR ''+'' then r else s | [] \<Rightarrow> s);
          hex = (case s1 of a # b # _ \<Rightarrow> a = CHR ''0'' \<and> (b = CHR ''x'' \<or> b = CHR ''X'') | _ \<Rightarrow> False);
          radix = (if hex then 16 else 10 :: nat);
          s2 = (if hex then drop 2 s1 else s1);
          z = takeWhile (\<lambda>c. digit_val c < radix) s2
      in if z = [] then NaN
         else Num (of_int (sign * int (foldl (\<lambda>acc c. acc * radix + digit_val c) 0 z))))"

text \<open>\<open>handleBpmChange\<close> of \<open>app.js\<close> and \<open>part_002\<close>; \<open>valStr\<close> is \<open>e.target.value\<close>.\<close>

definition handleBpmChange :: "string \<Rightarrow> metronome \<Rightarrow> metronome" where
  "handleBpmChange valStr st =
     (if valStr = [] then st\<lparr>bpm := BEmpty\<rparr>
      else
        let val = parseInt valStr
        in if isNaN val then st
           else st\<lparr>bpm := BNum (if js_gt val (Num MAX_BPM) then Num MAX_BPM else val)\<rparr>)"





text \<open>The state a fresh page shows: the default preset, nothing scheduled.\<close>

definition initial :: metronome where
  "initial = \<lparr>bpm = BNum (Num 120), beatsPerCycle = 4, subdivision = 1,
     grid = [''high-0'' \<mapsto> True, ''low-0'' \<mapsto> True, ''mid-2'' \<mapsto> True],
     isPlaying = False, currentStep = NoStep, tapTimes = [], lastMousePos = (0, 0),
     nextNoteTime = Num 0, stepRef = Step 0, timerArmed = False,
     played = [], timeouts = [], onsets = []\<rparr>"

section \<open>The statements of the specification\<close>

subsection \<open>Tap tempo\<close>

text \<open>
  The tempo the specification derives from a window of five taps: the mean of the four
  intervals between consecutive taps, 60000 divided by it, rounded to the nearest
  integer, clamped to the tempo range.
\<close>

definition spec_clamp :: "rat \<Rightarrow> rat" where
  "spec_clamp x = max 30 (min 250 x)"

definition spec_mean_interval :: "int list \<Rightarrow> rat" where
  "spec_mean_interval w = of_int (\<Sum>i\<leftarrow>[0..<4]. w ! (i + 1) - w ! i) / 4"

definition spec_tap_tempo :: "int list \<Rightarrow> rat" where
  "spec_tap_tempo w = spec_clamp (of_int (round (60000 / spec_mean_interval w)))"

text \<open>
  Names for the parts of \<open>handleTap\<close>: its timeout test, the window after the
  append and the drop of the oldest tap, and the tempo it computes from a window.
\<close>

definition tap_timeout :: "int \<Rightarrow> metronome \<Rightarrow> bool" where
  "tap_timeout now st = (tapTimes st \<noteq> [] \<and> now - last (tapTimes st) > 3000)"

definition slide :: "int list \<Rightarrow> int \<Rightarrow> int list" where
  "slide prev now = (if length (prev @ [now]) > 5 then tl (prev @ [now]) else prev @ [now])"

definition tap_bpm :: "int list \<Rightarrow> jsnum" where
  "tap_bpm w = Math_min (Math_max (Math_round (js_div (Num 60000)
     (js_div (Num (of_int (foldl (+) 0 (intervals w)))) (Num (of_nat (length (intervals w)))))))
     (Num MIN_BPM)) (Num MAX_BPM)"

subsection \<open>Tempo values\<close>





subsection \<open>The grid\<close>

text \<open>
  The active status of the cell \<open>(row, col)\<close>, as the page reads it to draw the cell;
  the row of each voice; and the voices that are active at a step, in the order in
  which \<open>scheduleNote\<close> tests them.
\<close>

definition active :: "metronome \<Rightarrow> string \<Rightarrow> nat \<Rightarrow> bool" where
  "active st row col = truthy (grid st (grid_key row (Step col)))"

fun row_of :: "voice \<Rightarrow> string" where
  "row_of Hat = ''high''"
| "row_of Snare = ''mid''"
| "row_of Kick = ''low''"

definition active_voices :: "(string \<rightharpoonup> bool) \<Rightarrow> stepnum \<Rightarrow> voice list" where
  "active_voices g s = filter (\<lambda>v. truthy (g (grid_key (row_of v) s))) [Hat, Snare, Kick]"

subsection \<open>One onset\<close>

text \<open>
  The delay \<open>scheduleNote\<close> hands to \<open>setTimeout\<close>, and the whole effect of
  \<open>scheduleNote\<close> in one update; \<open>cb\<close> is the callback of the file at hand.
\<close>

definition visual_delay :: "jsnum \<Rightarrow> jsnum \<Rightarrow> jsnum" where
  "visual_delay time currentTime = Math_max (Num 0) (js_mul (js_sub time currentTime) (Num 1000))"

definition noted :: "(stepnum \<Rightarrow> callback) \<Rightarrow> stepnum \<Rightarrow> jsnum \<Rightarrow> jsnum \<Rightarrow> metronome \<Rightarrow> metronome" where
  "noted cb s t c st =
     st\<lparr>played := played st @ map (\<lambda>v. (v, t)) (active_voices (grid st) s),
        timeouts := timeouts st @ [(visual_delay t c, cb s)],
        onsets := onsets st @ [(s, t)]\<rparr>"

subsection \<open>One poll\<close>

text \<open>
  \<open>step_after beats s j\<close> is the step index after \<open>j\<close> advances by one modulo
  \<open>beats\<close>, from \<open>s\<close>. \<open>due now t d\<close> is the number of cursor times
  \<open>t, t + d, t + 2 * d, ...\<close> below the horizon \<open>now + 0.1\<close>, for a step length \<open>d > 0\<close>.
\<close>

definition step_after :: "nat \<Rightarrow> stepnum \<Rightarrow> nat \<Rightarrow> stepnum" where
  "step_after beats s j = ((\<lambda>x. step_next x beats) ^^ j) s"



text \<open>
  A state the loop can reach from \<open>st\<close>: some number of iterations, each entered with
  the cursor below the horizon, and the cursor not below it at the end.
\<close>

definition iterated ::
  "(stepnum \<Rightarrow> jsnum \<Rightarrow> jsnum \<Rightarrow> metronome \<Rightarrow> metronome) \<Rightarrow> jsnum \<Rightarrow> jsnum \<Rightarrow> metronome \<Rightarrow> metronome \<Rightarrow> bool" where
  "iterated note c d st st' =
     (\<exists>k. st' = (schedule_step note c d ^^ k) st
        \<and> \<not> js_lt (nextNoteTime st') (js_add c scheduleAheadTime)
        \<and> (\<forall>j<k. js_lt (nextNoteTime ((schedule_step note c d ^^ j) st)) (js_add c scheduleAheadTime)))"

subsection \<open>A run of playback\<close>





section \<open>Tap tempo: proofs\<close>

lemma floor_rat_numeral: "\<lfloor>(numeral a / numeral b :: rat)\<rfloor> = numeral a div numeral b"
  using floor_divide_of_int_eq [of "numeral a" "numeral b", where ?'a = rat] by simp

lemma list_five: "length w = 5 \<Longrightarrow> \<exists>a b c d e. w = [a, b, c, d, e]"
  by (auto simp: eval_nat_numeral length_Suc_conv)

lemma clamp_Num:
  "Math_min (Math_max (Num x) (Num MIN_BPM)) (Num MAX_BPM) = Num (spec_clamp x)"
  by (simp add: MIN_BPM_def MAX_BPM_def spec_clamp_def max_def min_def)

lemma clamp_PosInf: "Math_min (Math_max PosInf (Num MIN_BPM)) (Num MAX_BPM) = Num 250"
  by (simp add: MIN_BPM_def MAX_BPM_def)

lemma spec_mean_five:
  "spec_mean_interval [a, b, c, d, e] = of_int ((b - a) + (c - b) + (d - c) + (e - d)) / 4"
  by (simp add: spec_mean_interval_def upt_rec)

lemma handleTap_cases:
  "handleTap now st =
     (if tap_timeout now st then st\<lparr>tapTimes := [now]\<rparr>
      else if 5 \<le> length (slide (tapTimes st) now)
        then st\<lparr>tapTimes := slide (tapTimes st) now, bpm := BNum (tap_bpm (slide (tapTimes st) now))\<rparr>
        else st\<lparr>tapTimes := slide (tapTimes st) now\<rparr>)"
  unfolding handleTap_def tap_timeout_def slide_def tap_bpm_def Let_def
  by (simp only: length_greater_0_conv)

lemma tapTimes_handleTap:
   "tapTimes (handleTap now st) = (if tap_timeout now st then [now] else slide (tapTimes st) now)"
  by (simp add: handleTap_cases)

lemma tap_bpm_five:
  "tap_bpm [a, b, c, d, e] =
     (if spec_mean_interval [a, b, c, d, e] = 0 then Num 250
      else Num (spec_tap_tempo [a, b, c, d, e]))"
proof -
  have "tap_bpm [a, b, c, d, e] =
     Math_min (Math_max (Math_round (js_div (Num 60000) (Num (spec_mean_interval [a, b, c, d, e]))))
       (Num MIN_BPM)) (Num MAX_BPM)"
    by (simp add: tap_bpm_def spec_mean_five)
  also have "\<dots> = (if spec_mean_interval [a, b, c, d, e] = 0 then Num 250
      else Num (spec_tap_tempo [a, b, c, d, e]))"
  proof (cases "spec_mean_interval [a, b, c, d, e] = 0")
    case True
    then show ?thesis by (simp add: clamp_PosInf del: Math_max.simps Math_min.simps)
  next
    case False
    then show ?thesis
      by (simp add: clamp_Num spec_tap_tempo_def round_def del: Math_max.simps Math_min.simps)
  qed
  finally show ?thesis .
qed


lemma spec_tap_tempo_sample: "spec_tap_tempo [0, 500, 1000, 1500, 2000] = 120"
  by (simp add: spec_tap_tempo_def spec_mean_five spec_clamp_def round_def floor_rat_numeral)

lemma spec_mean_sample: "spec_mean_interval [0, 500, 1000, 1500, 2000] = 500"
  by (simp add: spec_mean_five)

lemma five_taps:
  assumes "tapTimes st0 = []"
  shows "foldl (\<lambda>s t. handleTap t s) st0 [0, 500, 1000, 1500, 2000] =
    st0\<lparr>tapTimes := [0, 500, 1000, 1500, 2000], bpm := BNum (Num 120)\<rparr>"
proof -
  have 1: "handleTap 0 st0 = st0\<lparr>tapTimes := [0]\<rparr>"
    using assms by (simp add: handleTap_cases tap_timeout_def slide_def)
  have 2: "handleTap 500 (st0\<lparr>tapTimes := [0]\<rparr>) = st0\<lparr>tapTimes := [0, 500]\<rparr>"
    by (simp add: handleTap_cases tap_timeout_def slide_def)
  have 3: "handleTap 1000 (st0\<lparr>tapTimes := [0, 500]\<rparr>) = st0\<lparr>tapTimes := [0, 500, 1000]\<rparr>"
    by (simp add: handleTap_cases tap_timeout_def slide_def)
  have 4: "handleTap 1500 (st0\<lparr>tapTimes := [0, 500, 1000]\<rparr>) = st0\<lparr>tapTimes := [0, 500, 1000, 1500]\<rparr>"
    by (simp add: handleTap_cases tap_timeout_def slide_def)
  have 5: "handleTap 2000 (st0\<lparr>tapTimes := [0, 500, 1000, 1500]\<rparr>) =
      st0\<lparr>tapTimes := [0, 500, 1000, 1500, 2000], bpm := BNum (Num 120)\<rparr>"
    by (simp add: handleTap_cases tap_timeout_def slide_def tap_bpm_five spec_mean_sample
        spec_tap_tempo_sample)
  show ?thesis by (simp add: 1 2 3 4 5)
qed

text \<open>
  C3. When the window reaches five taps, \<open>handleTap\<close> sets the tempo to 60000 divided
  by the mean of the four intervals, rounded and clamped to 30..250 (a mean of zero
  makes the quotient plus infinity, which clamps to 250). Five taps 500 ms apart,
  starting from an empty window, give 120.
\<close>

theorem tap_sets_tempo:
  "(length (tapTimes st) \<le> 5 \<and> 5 \<le> length (tapTimes (handleTap now st)) \<longrightarrow>
      length (tapTimes (handleTap now st)) = 5 \<and>
      bpm (handleTap now st) =
        (if spec_mean_interval (tapTimes (handleTap now st)) = 0 then BNum (Num 250)
         else BNum (Num (spec_tap_tempo (tapTimes (handleTap now st))))))
   \<and> (tapTimes st0 = [] \<longrightarrow>
      bpm (foldl (\<lambda>s t. handleTap t s) st0 [0, 500, 1000, 1500, 2000]) = BNum (Num 120))"
proof (intro conjI impI)
  assume a: "length (tapTimes st) \<le> 5 \<and> 5 \<le> length (tapTimes (handleTap now st))"
  have nt: "\<not> tap_timeout now st"
    using a by (auto simp: tapTimes_handleTap)
  then have eq: "tapTimes (handleTap now st) = slide (tapTimes st) now"
    by (simp add: tapTimes_handleTap)
  show len: "length (tapTimes (handleTap now st)) = 5"
    using a eq by (simp add: slide_def split: if_splits)
  then obtain a b c d e where w: "slide (tapTimes st) now = [a, b, c, d, e]"
    using list_five eq by metis
  have "bpm (handleTap now st) = BNum (tap_bpm [a, b, c, d, e])"
    using nt len w eq by (simp add: handleTap_cases)
  then show "bpm (handleTap now st) =
        (if spec_mean_interval (tapTimes (handleTap now st)) = 0 then BNum (Num 250)
         else BNum (Num (spec_tap_tempo (tapTimes (handleTap now st)))))"
    by (simp add: eq w tap_bpm_five)
next
  assume "tapTimes st0 = []"
  then show "bpm (foldl (\<lambda>s t. handleTap t s) st0 [0, 500, 1000, 1500, 2000]) = BNum (Num 120)"
    by (simp only: five_taps) simp
qed

theorem tap_sets_tempo_witness:
  "length (tapTimes (initial\<lparr>tapTimes := [0, 500, 1000, 1500]\<rparr>)) \<le> 5
   \<and> 5 \<le> length (tapTimes (handleTap 2000 (initial\<lparr>tapTimes := [0, 500, 1000, 1500]\<rparr>)))
   \<and> tapTimes (handleTap 2000 (initial\<lparr>tapTimes := [0, 500, 1000, 1500]\<rparr>)) = [0, 500, 1000, 1500, 2000]
   \<and> bpm (handleTap 2000 (initial\<lparr>tapTimes := [0, 500, 1000, 1500]\<rparr>)) = BNum (Num 120)
   \<and> bpm (foldl (\<lambda>s t. handleTap t s) initial [0, 500, 1000, 1500, 2000]) = BNum (Num 120)"
proof -
  let ?s = "initial\<lparr>tapTimes := [0, 500, 1000, 1500]\<rparr>"
  have w: "tapTimes (handleTap 2000 ?s) = [0, 500, 1000, 1500, 2000]"
    by (simp add: tapTimes_handleTap tap_timeout_def slide_def)
  have e: "tapTimes initial = []"
    by (simp add: initial_def)
  show ?thesis
    using tap_sets_tempo [of ?s 2000 initial] w e
    by (simp add: spec_mean_sample spec_tap_tempo_sample)
qed

subsection \<open>The tap window\<close>

lemma length_slide: "length prev \<le> 5 \<Longrightarrow> length (slide prev now) \<le> 5"
  by (simp add: slide_def)

lemma length_handleTap: "length (tapTimes st) \<le> 5 \<Longrightarrow> length (tapTimes (handleTap now st)) \<le> 5"
  by (simp add: tapTimes_handleTap length_slide)

lemma length_taps:
  "length (tapTimes st) \<le> 5 \<Longrightarrow> length (tapTimes (foldl (\<lambda>s t. handleTap t s) st nows)) \<le> 5"
  by (induction nows arbitrary: st) (simp_all add: length_handleTap)

text \<open>
  C8. A tap more than 3000 ms after the last one replaces the window by that tap alone
  and changes nothing else, the tempo included. Any other tap is appended, and the
  oldest tap is dropped when that makes six. From a window of at most five taps (the
  empty one at the start) no sequence of taps makes the window longer than five.
\<close>

theorem tap_window:
  "(tapTimes st \<noteq> [] \<and> now - last (tapTimes st) > 3000 \<longrightarrow>
      handleTap now st = st\<lparr>tapTimes := [now]\<rparr>)
   \<and> (\<not> (tapTimes st \<noteq> [] \<and> now - last (tapTimes st) > 3000) \<longrightarrow>
      tapTimes (handleTap now st) =
        (if length (tapTimes st @ [now]) > 5 then tl (tapTimes st @ [now]) else tapTimes st @ [now]))
   \<and> (length (tapTimes st) \<le> 5 \<longrightarrow>
      length (tapTimes (foldl (\<lambda>s t. handleTap t s) st nows)) \<le> 5)"
  using length_taps [of st nows]
  by (simp add: handleTap_cases tap_timeout_def slide_def)

theorem tap_window_witness:
  "handleTap 4000 (initial\<lparr>tapTimes := [0]\<rparr>) = initial\<lparr>tapTimes := [4000]\<rparr>
   \<and> tapTimes (handleTap 600 (initial\<lparr>tapTimes := [0, 100, 200, 300, 400]\<rparr>)) = [100, 200, 300, 400, 600]
   \<and> tapTimes (handleTap 600 (initial\<lparr>tapTimes := [0, 100]\<rparr>)) = [0, 100, 600]
   \<and> length (tapTimes (foldl (\<lambda>s t. handleTap t s) initial [0, 100, 200, 300, 400, 500, 600])) \<le> 5"
proof -
  have e: "tapTimes initial = []"
    by (simp add: initial_def)
  show ?thesis
    using tap_window [of "initial\<lparr>tapTimes := [0]\<rparr>" 4000 "[]"]
      tap_window [of "initial\<lparr>tapTimes := [0, 100, 200, 300, 400]\<rparr>" 600 "[]"]
      tap_window [of "initial\<lparr>tapTimes := [0, 100]\<rparr>" 600 "[]"]
      tap_window [of initial 0 "[0, 100, 200, 300, 400, 500, 600]"] e
    by simp
qed

subsection \<open>Degenerate intervals\<close>

text \<open>
  Against C4 as stated: a fifth tap at the timestamp of the four before it is kept in
  the window, and the tempo 250 is written from the infinite quotient \<open>60000 / 0\<close>.
\<close>

theorem tap_degenerate_counterexample:
  "js_div (Num 60000) (Num 0) = PosInf
   \<and> tapTimes (handleTap 1000 (initial\<lparr>tapTimes := [1000, 1000, 1000, 1000]\<rparr>)) = [1000, 1000, 1000, 1000, 1000]
   \<and> bpm (initial\<lparr>tapTimes := [1000, 1000, 1000, 1000]\<rparr>) = BNum (Num 120)
   \<and> bpm (handleTap 1000 (initial\<lparr>tapTimes := [1000, 1000, 1000, 1000]\<rparr>)) = BNum (Num 250)"
  by (simp add: handleTap_cases tap_timeout_def slide_def tap_bpm_five spec_mean_five initial_def)

lemma spec_clamp_of_int: "spec_clamp (of_int r) = of_int (max 30 (min 250 r))"
  by (simp add: spec_clamp_def max_def min_def)

lemma spec_tap_tempo_range:
  "\<exists>k::int. 30 \<le> k \<and> k \<le> 250 \<and> spec_tap_tempo w = of_int k"
  unfolding spec_tap_tempo_def spec_clamp_of_int
  by (rule exI [of _ "max 30 (min 250 (round (60000 / spec_mean_interval w)))"]) simp

lemma spec_tap_tempo_negative:
  assumes "spec_mean_interval w < 0"
  shows "spec_tap_tempo w = 30"
proof -
  have "60000 / spec_mean_interval w < 0"
    using assms by (simp add: divide_neg_pos divide_less_0_iff)
  then have "60000 / spec_mean_interval w + 1 / 2 < 1"
    by linarith
  then have "round (60000 / spec_mean_interval w) \<le> 0"
    unfolding round_def by (simp add: floor_le_iff)
  then show ?thesis
    by (simp add: spec_tap_tempo_def spec_clamp_of_int)
qed

lemma tap_bpm_range:
  "length w = 5 \<Longrightarrow> \<exists>k::int. 30 \<le> k \<and> k \<le> 250 \<and> tap_bpm w = Num (of_int k)"
proof -
  assume "length w = 5"
  then obtain a b c d e where w: "w = [a, b, c, d, e]"
    using list_five by blast
  show ?thesis
  proof (cases "spec_mean_interval w = 0")
    case True
    then have "tap_bpm w = Num (of_int 250)"
      by (simp add: w tap_bpm_five)
    then show ?thesis by force
  next
    case False
    then have "tap_bpm w = Num (spec_tap_tempo w)"
      by (simp add: w tap_bpm_five)
    then show ?thesis
      using spec_tap_tempo_range [of w] by auto
  qed
qed

text \<open>
  C4, amended. \<open>handleTap\<close> does not guard against degenerate intervals: a tap that
  is not later than the previous one is appended like any other. When the window then
  holds five taps the tempo written is still an integer of 30..250: 250 when the mean
  interval is zero, 30 when it is negative.
\<close>

theorem tap_degenerate_kept:
  assumes "tapTimes st \<noteq> []" and "now \<le> last (tapTimes st)" and "length (tapTimes st) \<le> 5"
  shows "tapTimes (handleTap now st) =
      (if length (tapTimes st) = 5 then tl (tapTimes st) @ [now] else tapTimes st @ [now])
    \<and> (5 \<le> length (tapTimes (handleTap now st)) \<longrightarrow>
        (spec_mean_interval (tapTimes (handleTap now st)) = 0 \<longrightarrow> bpm (handleTap now st) = BNum (Num 250))
      \<and> (spec_mean_interval (tapTimes (handleTap now st)) < 0 \<longrightarrow> bpm (handleTap now st) = BNum (Num 30))
      \<and> (\<exists>k::int. 30 \<le> k \<and> k \<le> 250 \<and> bpm (handleTap now st) = BNum (Num (of_int k))))"
proof -
  have nt: "\<not> tap_timeout now st"
    using assms(2) by (simp add: tap_timeout_def)
  then have eq: "tapTimes (handleTap now st) = slide (tapTimes st) now"
    by (simp add: tapTimes_handleTap)
  have win: "slide (tapTimes st) now =
      (if length (tapTimes st) = 5 then tl (tapTimes st) @ [now] else tapTimes st @ [now])"
    using assms(1,3) by (simp add: slide_def)
  have tempo: "(spec_mean_interval (slide (tapTimes st) now) = 0 \<longrightarrow> bpm (handleTap now st) = BNum (Num 250))
      \<and> (spec_mean_interval (slide (tapTimes st) now) < 0 \<longrightarrow> bpm (handleTap now st) = BNum (Num 30))
      \<and> (\<exists>k::int. 30 \<le> k \<and> k \<le> 250 \<and> bpm (handleTap now st) = BNum (Num (of_int k)))"
    if five: "5 \<le> length (slide (tapTimes st) now)"
  proof -
    have len: "length (slide (tapTimes st) now) = 5"
      using five assms(3) by (simp add: slide_def split: if_splits)
    then obtain a b c d e where w: "slide (tapTimes st) now = [a, b, c, d, e]"
      using list_five by blast
    have b: "bpm (handleTap now st) = BNum (tap_bpm (slide (tapTimes st) now))"
      using nt five by (simp add: handleTap_cases)
    have r: "\<exists>k::int. 30 \<le> k \<and> k \<le> 250 \<and> bpm (handleTap now st) = BNum (Num (of_int k))"
      using tap_bpm_range [OF len] b by auto
    show ?thesis
      using r b spec_tap_tempo_negative [of "[a, b, c, d, e]"]
      by (auto simp: w tap_bpm_five)
  qed
  show ?thesis
    using win tempo by (simp add: eq)
qed

theorem tap_degenerate_kept_witness:
  "tapTimes (initial\<lparr>tapTimes := [1000, 1000, 1000, 1000]\<rparr>) \<noteq> []
   \<and> (1000::int) \<le> last (tapTimes (initial\<lparr>tapTimes := [1000, 1000, 1000, 1000]\<rparr>))
   \<and> tapTimes (handleTap 1000 (initial\<lparr>tapTimes := [1000, 1000, 1000, 1000]\<rparr>)) = [1000, 1000, 1000, 1000, 1000]
   \<and> bpm (handleTap 1000 (initial\<lparr>tapTimes := [1000, 1000, 1000, 1000]\<rparr>)) = BNum (Num 250)
   \<and> bpm (handleTap 600 (initial\<lparr>tapTimes := [1000, 900, 800, 700]\<rparr>)) = BNum (Num 30)"
  using tap_degenerate_kept [of "initial\<lparr>tapTimes := [1000, 1000, 1000, 1000]\<rparr>" 1000]
    tap_degenerate_kept [of "initial\<lparr>tapTimes := [1000, 900, 800, 700]\<rparr>" 600]
  by (simp add: spec_mean_five)

section \<open>The scheduler: proofs\<close>

lemma scheduleNote_noted: "scheduleNote s t c st = noted SetStepIfPlaying s t c st"
  by (simp add: scheduleNote_def noted_def active_voices_def playSound_def visual_delay_def Let_def)

lemma scheduleNote_p2_noted: "scheduleNote_p2 s t c st = noted SetStep s t c st"
  by (simp add: scheduleNote_p2_def noted_def active_voices_def playSound_def visual_delay_def Let_def)

lemma schedule_step_noted:
  "schedule_step (noted cb) c d st =
     st\<lparr>played := played st @ map (\<lambda>v. (v, nextNoteTime st)) (active_voices (grid st) (stepRef st)),
        timeouts := timeouts st @ [(visual_delay (nextNoteTime st) c, cb (stepRef st))],
        onsets := onsets st @ [(stepRef st, nextNoteTime st)],
        nextNoteTime := js_add (nextNoteTime st) d,
        stepRef := step_next (stepRef st) (beatsPerCycle st)\<rparr>"
  by (simp add: schedule_step_def noted_def Let_def)





lemma steps_state:
  assumes "nextNoteTime st = Num t"
  shows "nextNoteTime ((schedule_step (noted cb) c (Num d) ^^ k) st) = Num (t + of_nat k * d)
    \<and> stepRef ((schedule_step (noted cb) c (Num d) ^^ k) st) = step_after (beatsPerCycle st) (stepRef st) k
    \<and> beatsPerCycle ((schedule_step (noted cb) c (Num d) ^^ k) st) = beatsPerCycle st
    \<and> onsets ((schedule_step (noted cb) c (Num d) ^^ k) st) =
        onsets st @ map (\<lambda>j. (step_after (beatsPerCycle st) (stepRef st) j, Num (t + of_nat j * d))) [0..<k]"
proof (induction k)
  case 0
  then show ?case using assms by (simp add: step_after_def)
next
  case (Suc k)
  then show ?case
    by (simp add: schedule_step_noted step_after_def algebra_simps)
qed




lemma iterated_stop:
  "\<not> js_lt (nextNoteTime st) (js_add c scheduleAheadTime) \<Longrightarrow> iterated note c d st st"
  unfolding iterated_def by (intro exI [of _ 0]) simp

lemma iterated_step:
  assumes "js_lt (nextNoteTime st) (js_add c scheduleAheadTime)"
    and "iterated note c d (schedule_step note c d st) y"
  shows "iterated note c d st y"
proof -
  obtain k where k: "y = (schedule_step note c d ^^ k) (schedule_step note c d st)"
      "\<not> js_lt (nextNoteTime y) (js_add c scheduleAheadTime)"
      "\<forall>j<k. js_lt (nextNoteTime ((schedule_step note c d ^^ j) (schedule_step note c d st)))
         (js_add c scheduleAheadTime)"
    using assms(2) unfolding iterated_def by blast
  have "js_lt (nextNoteTime ((schedule_step note c d ^^ j) st)) (js_add c scheduleAheadTime)"
    if "j < Suc k" for j
    using that assms(1) k(3) by (cases j) (simp_all add: funpow_swap1)
  then show ?thesis
    unfolding iterated_def using k(1,2)
    by (intro exI [of _ "Suc k"]) (simp add: funpow_swap1)
qed

lemma loop_iterated:
  assumes "schedule_loop note c d st = Some st'"
  shows "iterated note c d st st'"
proof (rule schedule_loop.raw_induct [where P = iterated, OF _ assms])
  fix loop :: "(stepnum \<Rightarrow> jsnum \<Rightarrow> jsnum \<Rightarrow> metronome \<Rightarrow> metronome) \<Rightarrow> jsnum \<Rightarrow> jsnum \<Rightarrow> metronome \<Rightarrow> metronome option"
  fix f c d st y
  assume IH: "\<And>n c d st y. loop n c d st = Some y \<Longrightarrow> iterated n c d st y"
    and eq: "(if js_lt (nextNoteTime st) (js_add c scheduleAheadTime)
              then loop f c d (schedule_step f c d st) else Some st) = Some y"
  show "iterated f c d st y"
  proof (cases "js_lt (nextNoteTime st) (js_add c scheduleAheadTime)")
    case True
    then have "loop f c d (schedule_step f c d st) = Some y"
      using eq by simp
    then show ?thesis
      using IH True iterated_step by blast
  next
    case False
    then show ?thesis
      using eq iterated_stop by auto
  qed
qed

lemma loop_iterates:
  "schedule_loop note c d st = Some st' \<Longrightarrow>
   \<exists>k. st' = (schedule_step note c d ^^ k) st
     \<and> \<not> js_lt (nextNoteTime st') (js_add c scheduleAheadTime)
     \<and> (\<forall>j<k. js_lt (nextNoteTime ((schedule_step note c d ^^ j) st)) (js_add c scheduleAheadTime))"
  using loop_iterated unfolding iterated_def by blast



















section \<open>The poll: claims\<close>







section \<open>The step sequence\<close>













section \<open>The pattern grid: proofs\<close>

lemma digit_char_inj:
  assumes "a < 10" and "b < 10" and "digit_char a = digit_char b"
  shows "a = b"
proof -
  have "distinct ''0123456789''" by simp
  then show ?thesis
    using assms unfolding digit_char_def by (simp add: nth_eq_iff_index_eq)
qed

lemma digit_char_no_dash: "d < 10 \<Longrightarrow> digit_char d \<noteq> CHR ''-''"
proof -
  assume "d < 10"
  then have "digit_char d \<in> set ''0123456789''"
    unfolding digit_char_def by (intro nth_mem) simp
  then show ?thesis by auto
qed

lemma decimal_not_Nil: "decimal n \<noteq> []"
  by (subst decimal.simps) simp

lemma decimal_no_dash: "CHR ''-'' \<notin> set (decimal n)"
proof (induction n rule: decimal.induct)
  case (1 n)
  show ?case
  proof (cases "n < 10")
    case True
    then show ?thesis
      using digit_char_no_dash [of n] by (subst decimal.simps) auto
  next
    case False
    then show ?thesis
      using 1 digit_char_no_dash [of "n mod 10"] by (subst decimal.simps) auto
  qed
qed

lemma decimal_inj: "decimal m = decimal n \<Longrightarrow> m = n"
proof (induction m arbitrary: n rule: decimal.induct)
  case (1 m)
  show ?case
  proof (cases "m < 10")
    case m: True
    show ?thesis
    proof (cases "n < 10")
      case True
      then show ?thesis
        using m "1.prems" digit_char_inj [of m n]
        by (simp add: decimal.simps [of m] decimal.simps [of n])
    next
      case False
      then show ?thesis
        using m "1.prems" decimal_not_Nil [of "n div 10"]
        by (simp add: decimal.simps [of m] decimal.simps [of n])
    qed
  next
    case m: False
    show ?thesis
    proof (cases "n < 10")
      case True
      then show ?thesis
        using m "1.prems" decimal_not_Nil [of "m div 10"]
        by (simp add: decimal.simps [of m] decimal.simps [of n])
    next
      case False
      then have e: "decimal (m div 10) = decimal (n div 10)" "digit_char (m mod 10) = digit_char (n mod 10)"
        using m "1.prems" by (simp_all add: decimal.simps [of m] decimal.simps [of n])
      have "m div 10 = n div 10"
        using "1.IH" [OF m e(1)] .
      moreover have "m mod 10 = n mod 10"
        using digit_char_inj [OF _ _ e(2)] by simp
      ultimately show ?thesis
        by (metis div_mult_mod_eq)
    qed
  qed
qed

lemma first_split:
  "x \<notin> set xs \<Longrightarrow> x \<notin> set xs' \<Longrightarrow> xs @ x # ys = xs' @ x # ys' \<Longrightarrow> xs = xs' \<and> ys = ys'"
proof (induction xs arbitrary: xs')
  case Nil
  then show ?case by (cases xs') auto
next
  case (Cons a xs)
  then show ?case by (cases xs') auto
qed

lemma dash_split:
  assumes "CHR ''-'' \<notin> set d" and "CHR ''-'' \<notin> set d'"
    and "r @ CHR ''-'' # d = r' @ CHR ''-'' # d'"
  shows "r = r' \<and> d = d'"
proof -
  have "rev d @ CHR ''-'' # rev r = rev d' @ CHR ''-'' # rev r'"
    using arg_cong [OF assms(3), of rev] by simp
  moreover have "CHR ''-'' \<notin> set (rev d)" "CHR ''-'' \<notin> set (rev d')"
    using assms(1,2) by simp_all
  ultimately have "rev d = rev d' \<and> rev r = rev r'"
    by (rule first_split [rotated 2])
  then show ?thesis by simp
qed

lemma grid_key_inj:
  "grid_key row (Step col) = grid_key row' (Step col') \<longleftrightarrow> row = row' \<and> col = col'"
  using dash_split [OF decimal_no_dash decimal_no_dash, of row col row' col'] decimal_inj [of col col']
  by (auto simp: grid_key_def)

lemma active_toggle:
  "active (toggleGridParams row col st) row' col' =
     (if row' = row \<and> col' = col then \<not> active st row col else active st row' col')"
  by (auto simp: active_def toggleGridParams_def Let_def grid_key_inj truthy_def)

text \<open>
  C10. \<open>toggleGridParams row col\<close> negates the active status of the cell
  \<open>(row, col)\<close> and leaves that of every other cell as it was; two toggles of the same
  cell restore the active status of every cell. Nothing but the grid changes.
\<close>

theorem toggle_cell:
  "active (toggleGridParams row col st) row' col' =
     (if row' = row \<and> col' = col then \<not> active st row col else active st row' col')
   \<and> active (toggleGridParams row col (toggleGridParams row col st)) row' col' = active st row' col'
   \<and> toggleGridParams row col st = st\<lparr>grid := grid (toggleGridParams row col st)\<rparr>"
  by (simp add: active_toggle) (simp add: toggleGridParams_def Let_def)

theorem toggle_cell_witness:
  "active initial ''high'' 0 \<and> \<not> active (toggleGridParams ''high'' 0 initial) ''high'' 0
   \<and> active (toggleGridParams ''high'' 0 initial) ''low'' 0
   \<and> \<not> active (toggleGridParams ''high'' 0 initial) ''high'' 10
   \<and> \<not> active initial ''mid'' 1 \<and> active (toggleGridParams ''mid'' 1 initial) ''mid'' 1
   \<and> \<not> active (toggleGridParams ''mid'' 1 (toggleGridParams ''mid'' 1 initial)) ''mid'' 1"
proof -
  have a: "active initial ''high'' 0" "active initial ''low'' 0" "\<not> active initial ''mid'' 1"
    "\<not> active initial ''high'' 10"
    by (simp_all add: active_def initial_def grid_key_def truthy_def decimal.simps digit_char_def)
  show ?thesis
    using a toggle_cell [of "''high''" 0 initial "''high''" 0]
      toggle_cell [of "''high''" 0 initial "''low''" 0]
      toggle_cell [of "''high''" 0 initial "''high''" 10]
      toggle_cell [of "''mid''" 1 initial "''mid''" 1]
    by simp
qed

text \<open>
  C9. \<open>scheduleNote\<close> calls the sound renderer, at the onset's time, for exactly the
  voices whose grid entry at the step is truthy, in the order hat, snare, kick. A step
  with no grid entry (also the step NaN) gives no call; a step where only the kick's
  entry is truthy gives the one call for the kick; and so does step 2 after
  \<open>toggleGridParams ''low'' 2\<close> on a grid with no entry at step 2.
\<close>

theorem renderer_calls:
  "played (scheduleNote s t c st) = played st @ map (\<lambda>v. (v, t)) (active_voices (grid st) s)
   \<and> played (scheduleNote_p2 s t c st) = played st @ map (\<lambda>v. (v, t)) (active_voices (grid st) s)
   \<and> set (active_voices (grid st) s) = {v. truthy (grid st (grid_key (row_of v) s))}
   \<and> distinct (active_voices (grid st) s)
   \<and> (grid st (grid_key ''high'' s) = None \<and> grid st (grid_key ''mid'' s) = None
        \<and> grid st (grid_key ''low'' s) = None \<longrightarrow>
      played (scheduleNote s t c st) = played st)
   \<and> (grid st (grid_key ''low'' s) = Some True \<and> \<not> truthy (grid st (grid_key ''mid'' s))
        \<and> \<not> truthy (grid st (grid_key ''high'' s)) \<longrightarrow>
      played (scheduleNote s t c st) = played st @ [(Kick, t)])
   \<and> (grid st (grid_key ''high'' (Step 2)) = None \<and> grid st (grid_key ''mid'' (Step 2)) = None
        \<and> grid st (grid_key ''low'' (Step 2)) = None \<longrightarrow>
      played (scheduleNote (Step 2) t c (toggleGridParams ''low'' 2 st)) = played st @ [(Kick, t)])"
proof (intro conjI impI)
  show "played (scheduleNote s t c st) = played st @ map (\<lambda>v. (v, t)) (active_voices (grid st) s)"
    by (simp add: scheduleNote_noted noted_def)
  show "played (scheduleNote_p2 s t c st) = played st @ map (\<lambda>v. (v, t)) (active_voices (grid st) s)"
    by (simp add: scheduleNote_p2_noted noted_def)
  show "set (active_voices (grid st) s) = {v. truthy (grid st (grid_key (row_of v) s))}"
  proof -
    have "v \<in> set [Hat, Snare, Kick]" for v
      by (cases v) simp_all
    then show ?thesis
      unfolding active_voices_def by (simp only: set_filter) blast
  qed
  show "distinct (active_voices (grid st) s)"
    unfolding active_voices_def by (rule distinct_filter) simp
next
  assume "grid st (grid_key ''high'' s) = None \<and> grid st (grid_key ''mid'' s) = None
        \<and> grid st (grid_key ''low'' s) = None"
  then show "played (scheduleNote s t c st) = played st"
    by (simp add: scheduleNote_noted noted_def active_voices_def truthy_def)
next
  assume "grid st (grid_key ''low'' s) = Some True \<and> \<not> truthy (grid st (grid_key ''mid'' s))
        \<and> \<not> truthy (grid st (grid_key ''high'' s))"
  then show "played (scheduleNote s t c st) = played st @ [(Kick, t)]"
    by (simp add: scheduleNote_noted noted_def active_voices_def truthy_def)
next
  assume "grid st (grid_key ''high'' (Step 2)) = None \<and> grid st (grid_key ''mid'' (Step 2)) = None
        \<and> grid st (grid_key ''low'' (Step 2)) = None"
  then show "played (scheduleNote (Step 2) t c (toggleGridParams ''low'' 2 st)) = played st @ [(Kick, t)]"
    by (simp add: scheduleNote_noted noted_def active_voices_def truthy_def toggleGridParams_def
        Let_def grid_key_def)
qed

theorem renderer_calls_witness:
  "played (scheduleNote (Step 0) (Num 0) (Num 0) initial) = [(Hat, Num 0), (Kick, Num 0)]
   \<and> played (scheduleNote (Step 3) (Num 0) (Num 0) initial) = []
   \<and> played (scheduleNote StepNaN (Num 0) (Num 0) initial) = []
   \<and> played (scheduleNote (Step 3) (Num 1) (Num 0) (toggleGridParams ''low'' 3 initial)) = [(Kick, Num 1)]
   \<and> played (scheduleNote (Step 2) (Num 1) (Num 0)
        (toggleGridParams ''low'' 2 (initial\<lparr>grid := Map.empty\<rparr>))) = [(Kick, Num 1)]"
proof -
  have p: "played initial = []"
    by (simp add: initial_def)
  have g: "grid initial (grid_key ''high'' (Step 3)) = None" "grid initial (grid_key ''mid'' (Step 3)) = None"
    "grid initial (grid_key ''low'' (Step 3)) = None"
    "grid initial (grid_key ''high'' StepNaN) = None" "grid initial (grid_key ''mid'' StepNaN) = None"
    "grid initial (grid_key ''low'' StepNaN) = None"
    by (simp_all add: initial_def grid_key_def decimal.simps digit_char_def)
  have a0: "active_voices (grid initial) (Step 0) = [Hat, Kick]"
    by (simp add: active_voices_def initial_def grid_key_def truthy_def decimal.simps digit_char_def)
  have t1: "grid (toggleGridParams ''low'' 3 initial) (grid_key ''low'' (Step 3)) = Some True"
    "\<not> truthy (grid (toggleGridParams ''low'' 3 initial) (grid_key ''mid'' (Step 3)))"
    "\<not> truthy (grid (toggleGridParams ''low'' 3 initial) (grid_key ''high'' (Step 3)))"
    "played (toggleGridParams ''low'' 3 initial) = []"
    by (simp_all add: toggleGridParams_def initial_def grid_key_def truthy_def decimal.simps digit_char_def)
  have 1: "played (scheduleNote (Step 0) (Num 0) (Num 0) initial) = [(Hat, Num 0), (Kick, Num 0)]"
    using renderer_calls [of "Step 0" "Num 0" "Num 0" initial] p a0 by simp
  have 2: "played (scheduleNote (Step 3) (Num 0) (Num 0) initial) = []"
  proof -
    have "played (scheduleNote (Step 3) (Num 0) (Num 0) initial) = played initial"
      using renderer_calls [of "Step 3" "Num 0" "Num 0" initial] g by blast
    then show ?thesis using p by simp
  qed
  have 3: "played (scheduleNote StepNaN (Num 0) (Num 0) initial) = []"
  proof -
    have "played (scheduleNote StepNaN (Num 0) (Num 0) initial) = played initial"
      using renderer_calls [of StepNaN "Num 0" "Num 0" initial] g by blast
    then show ?thesis using p by simp
  qed
  have 4: "played (scheduleNote (Step 3) (Num 1) (Num 0) (toggleGridParams ''low'' 3 initial)) = [(Kick, Num 1)]"
  proof -
    have "played (scheduleNote (Step 3) (Num 1) (Num 0) (toggleGridParams ''low'' 3 initial)) =
        played (toggleGridParams ''low'' 3 initial) @ [(Kick, Num 1)]"
      using renderer_calls [of "Step 3" "Num 1" "Num 0" "toggleGridParams ''low'' 3 initial"] t1(1,2,3)
      by blast
    then show ?thesis using t1(4) by simp
  qed
  have 5: "played (scheduleNote (Step 2) (Num 1) (Num 0)
        (toggleGridParams ''low'' 2 (initial\<lparr>grid := Map.empty\<rparr>))) = [(Kick, Num 1)]"
  proof -
    have e: "grid (initial\<lparr>grid := Map.empty\<rparr>) (grid_key ''high'' (Step 2)) = None"
      "grid (initial\<lparr>grid := Map.empty\<rparr>) (grid_key ''mid'' (Step 2)) = None"
      "grid (initial\<lparr>grid := Map.empty\<rparr>) (grid_key ''low'' (Step 2)) = None"
      by simp_all
    have "played (scheduleNote (Step 2) (Num 1) (Num 0)
        (toggleGridParams ''low'' 2 (initial\<lparr>grid := Map.empty\<rparr>))) =
        played (initial\<lparr>grid := Map.empty\<rparr>) @ [(Kick, Num 1)]"
      using renderer_calls [of "Step 2" "Num 1" "Num 0" "initial\<lparr>grid := Map.empty\<rparr>"] e by blast
    then show ?thesis using p by simp
  qed
  show ?thesis
    using 1 2 3 4 5 by simp
qed

section \<open>The playhead\<close>

lemma timeouts_scheduleNote:
  "timeouts (scheduleNote s t c st) = timeouts st @ [(visual_delay t c, SetStepIfPlaying s)]"
  by (simp add: scheduleNote_noted noted_def)

lemma timeouts_scheduleNote_p2:
  "timeouts (scheduleNote_p2 s t c st) = timeouts st @ [(visual_delay t c, SetStep s)]"
  by (simp add: scheduleNote_p2_noted noted_def)

lemma visual_delay_Num: "visual_delay (Num t) (Num now) = Num (max 0 ((t - now) * 1000))"
  by (simp add: visual_delay_def js_sub_def max_def)

text \<open>
  The playhead in \<open>app.js\<close> and \<open>part_001\<close>: \<open>scheduleNote\<close> registers a timeout of
  \<open>max(0, (t - now) * 1000)\<close> milliseconds whose callback sets the highlighted step only
  if playback is still on when it fires.
\<close>

lemma playhead_sync_guarded:
  "timeouts (scheduleNote s (Num t) (Num now) st) =
      timeouts st @ [(Num (max 0 ((t - now) * 1000)), SetStepIfPlaying s)]
   \<and> run_callback (SetStepIfPlaying s) st' =
      (if isPlaying st' then st'\<lparr>currentStep := AtStep s\<rparr> else st')"
  by (simp add: timeouts_scheduleNote visual_delay_Num)

lemma stop_effect: "\<not> isPlaying st \<Longrightarrow> playEffect sched c st = Some (st\<lparr>timerArmed := False, currentStep := NoStep\<rparr>)"
  by (simp add: playEffect_def)

text \<open>
  C6 fails in \<open>part_002\<close>. An onset of step 1 at 0.5 s is scheduled at clock 0.45 s:
  the timeout is 50 ms and its callback is unconditional. Playback stops at 0.46 s,
  which clears the highlight; when the timeout fires, step 1 is highlighted although
  playback is off. With the \<open>scheduleNote\<close> of \<open>app.js\<close> and \<open>part_001\<close> the same
  course leaves the highlight cleared.
\<close>

theorem stray_highlight_p2:
  "timeouts (scheduleNote_p2 (Step 1) (Num (1 / 2)) (Num (9 / 20)) (initial\<lparr>isPlaying := True\<rparr>))
      = [(Num 50, SetStep (Step 1))]
   \<and> playEffect scheduler_p2 (Num (23 / 50))
        ((scheduleNote_p2 (Step 1) (Num (1 / 2)) (Num (9 / 20)) (initial\<lparr>isPlaying := True\<rparr>))\<lparr>isPlaying := False\<rparr>)
      = Some ((scheduleNote_p2 (Step 1) (Num (1 / 2)) (Num (9 / 20)) (initial\<lparr>isPlaying := True\<rparr>))
          \<lparr>isPlaying := False, timerArmed := False, currentStep := NoStep\<rparr>)
   \<and> currentStep (run_callback (SetStep (Step 1))
        ((scheduleNote_p2 (Step 1) (Num (1 / 2)) (Num (9 / 20)) (initial\<lparr>isPlaying := True\<rparr>))
          \<lparr>isPlaying := False, timerArmed := False, currentStep := NoStep\<rparr>)) = AtStep (Step 1)
   \<and> timeouts (scheduleNote (Step 1) (Num (1 / 2)) (Num (9 / 20)) (initial\<lparr>isPlaying := True\<rparr>))
      = [(Num 50, SetStepIfPlaying (Step 1))]
   \<and> currentStep (run_callback (SetStepIfPlaying (Step 1))
        ((scheduleNote (Step 1) (Num (1 / 2)) (Num (9 / 20)) (initial\<lparr>isPlaying := True\<rparr>))
          \<lparr>isPlaying := False, timerArmed := False, currentStep := NoStep\<rparr>)) = NoStep"
  by (simp add: timeouts_scheduleNote timeouts_scheduleNote_p2 visual_delay_Num stop_effect)
    (simp add: initial_def scheduleNote_noted scheduleNote_p2_noted noted_def)

section \<open>Setting the tempo: proofs\<close>


























text \<open>
  A tempo that is not positive: with a negative step length the cursor never reaches
  the horizon, and the loop of the poll does not return.
\<close>

lemma loop_diverges:
  assumes "d < 0" and "nextNoteTime st = Num t" and "t < now + 1 / 10"
  shows "schedule_loop (noted cb) (Num now) (Num d) st = None"
proof (rule ccontr)
  assume "schedule_loop (noted cb) (Num now) (Num d) st \<noteq> None"
  then obtain y where y: "schedule_loop (noted cb) (Num now) (Num d) st = Some y"
    by auto
  obtain k where k: "y = (schedule_step (noted cb) (Num now) (Num d) ^^ k) st"
    "\<not> js_lt (nextNoteTime y) (js_add (Num now) scheduleAheadTime)"
    using loop_iterates [OF y] by blast
  have n: "nextNoteTime y = Num (t + of_nat k * d)"
    using steps_state [OF assms(2), where cb = cb and c = "Num now" and d = d and k = k] k(1) by simp
  have "of_nat k * d \<le> 0"
    using assms(1) by (simp add: mult_nonneg_nonpos)
  then have "t + of_nat k * d < now + 1 / 10"
    using assms(3) by linarith
  then show False
    using k(2) n by (simp add: scheduleAheadTime_def)
qed

lemma parseInt_minus_5: "parseInt ''-5'' = Num (- 5)"
  by (simp add: parseInt_def is_white_def digit_val_def)

lemma scheduler_negative_tempo:
  "bpm (handleBpmChange ''-5'' initial) = BNum (Num (- 5))
   \<and> scheduler (Num 0) ((handleBpmChange ''-5'' initial)\<lparr>isPlaying := True\<rparr>) = None"
proof -
  let ?s = "(handleBpmChange ''-5'' initial)\<lparr>isPlaying := True\<rparr>"
  have h: "isPlaying ?s" "bpm ?s = BNum (Num (- 5))" "nextNoteTime ?s = Num 0"
    by (simp_all add: handleBpmChange_def initial_def parseInt_minus_5 isNaN_def Let_def js_gt_def MAX_BPM_def)
  have "schedule_loop (noted SetStepIfPlaying) (Num 0) (Num (- 12)) ?s = None"
    by (rule loop_diverges [OF _ h(3)]) simp_all
  then show ?thesis
    using h by (simp add: scheduler_def scheduleNote_noted [abs_def])
qed

end
